theory Spec2Isabelle
  imports Main "HOL-Library.Word" "HOL-Library.Multiset"
begin

section \<open>Go values used by sipnet/connection.go\<close>

type_synonym byte = "8 word"
type_synonym bytes = "byte list"

text \<open>
  The errors the file names (\<open>io.EOF\<close>, \<open>io.ErrUnexpectedEOF\<close>, \<open>io.ErrClosedPipe\<close>)
  and every other error value, told apart by its message.
\<close>

datatype error = EOF | ErrUnexpectedEOF | ErrClosedPipe | OtherError string

text \<open>
  What travels on \<open>readMessage\<close> (a \<open>chan interface{}\<close>): an \<open>error\<close>, a \<open>*Request\<close> or a
  \<open>*Response\<close>. The Request and Response types are declared in other files of the package,
  so they are type parameters here.
\<close>

datatype ('rq, 'rs) msg = MError error | MRequest 'rq | MResponse 'rs

text \<open>
  A Go byte slice: \<open>backing\<close> is the underlying array from the slice's first element up to
  its capacity, \<open>slen\<close> its length. The slice is well formed when \<open>slen \<le> length backing\<close>.
\<close>

record goslice =
  backing :: bytes
  slen :: nat

definition slice_bytes :: "goslice \<Rightarrow> bytes" where
  "slice_bytes s = take (slen s) (backing s)"

definition slice_cap :: "goslice \<Rightarrow> nat" where
  "slice_cap s = length (backing s)"

definition slice_of :: "bytes \<Rightarrow> goslice" where
  \<comment> \<open>a slice whose capacity equals its length, as \<open>make([]byte, n)\<close> followed by a copy gives\<close>
  "slice_of bs = \<lparr>backing = bs, slen = length bs\<rparr>"

definition slice_to :: "goslice \<Rightarrow> nat \<Rightarrow> bytes option" where
  \<comment> \<open>\<open>s[:n]\<close>: Go checks the upper bound against the capacity and panics beyond it\<close>
  "slice_to s n = (if n \<le> slice_cap s then Some (take n (backing s)) else None)"

fun bytes_Compare :: "bytes \<Rightarrow> bytes \<Rightarrow> int" where
  "bytes_Compare [] [] = 0"
| "bytes_Compare [] (y # ys) = - 1"
| "bytes_Compare (x # xs) [] = 1"
| "bytes_Compare (x # xs) (y # ys) =
     (if x < y then - 1 else if y < x then 1 else bytes_Compare xs ys)"

definition CRLF :: bytes where
  "CRLF = [0x0D, 0x0A]"

definition CRLFCRLF :: bytes where
  "CRLFCRLF = [0x0D, 0x0A, 0x0D, 0x0A]"

definition SIP :: bytes where
  "SIP = [0x53, 0x49, 0x50]"

subsection \<open>Channels\<close>

text \<open>
  A buffered channel: the queued values oldest first, the capacity, and whether
  \<open>close\<close> has run. A receive takes the oldest value; on an empty channel it reports the
  closure or blocks. A send appends at the tail; it panics on a closed channel and blocks
  while the buffer is full. The hand-over of an unbuffered channel to a waiting receiver is
  not represented: with capacity 0 every send shows as blocked.
\<close>

record 'a chan =
  buf :: "'a list"
  cap :: nat
  chan_closed :: bool

datatype 'a recv = Recv 'a "'a chan" | RecvClosed | RecvBlock

datatype 'a send = Sent "'a chan" | SendBlock | SendPanic

definition chan_recv :: "'a chan \<Rightarrow> 'a recv" where
  "chan_recv ch =
     (case buf ch of
        x # xs \<Rightarrow> Recv x (ch\<lparr>buf := xs\<rparr>)
      | [] \<Rightarrow> if chan_closed ch then RecvClosed else RecvBlock)"

definition chan_send :: "'a chan \<Rightarrow> 'a \<Rightarrow> 'a send" where
  "chan_send ch x =
     (if chan_closed ch then SendPanic
      else if length (buf ch) < cap ch then Sent (ch\<lparr>buf := buf ch @ [x]\<rparr>)
      else SendBlock)"

definition chan_close :: "'a chan \<Rightarrow> 'a chan option" where
  \<comment> \<open>closing a closed channel panics\<close>
  "chan_close ch = (if chan_closed ch then None else Some (ch\<lparr>chan_closed := True\<rparr>))"

subsection \<open>Byte sources, sockets, time\<close>

text \<open>
  An \<open>io.Reader\<close> as the readers of this file meet it: the bytes that are still to come, in
  order, and what a read returns once they are used up (\<open>None\<close>: the read blocks, the peer
  is silent).
\<close>

record reader =
  avail :: bytes
  after :: "error option"

definition ReadFull :: "reader \<Rightarrow> nat \<Rightarrow> (bytes \<times> error option \<times> reader) option" where
  \<comment> \<open>\<open>io.ReadFull(r, buf)\<close> with \<open>len(buf) = n\<close>: the buffer (zero where nothing was read),
      the error, the source afterwards; \<open>None\<close> when it blocks\<close>
  "ReadFull r n =
     (let k = length (avail r) in
      if n \<le> k then Some (take n (avail r), None, r\<lparr>avail := drop n (avail r)\<rparr>)
      else (case after r of
              None \<Rightarrow> None
            | Some e \<Rightarrow>
                Some (avail r @ replicate (n - k) 0,
                      Some (if e = EOF \<and> 0 < k then ErrUnexpectedEOF else e),
                      r\<lparr>avail := []\<rparr>)))"

text \<open>
  \<open>ReadRequest\<close> and \<open>ReadResponse\<close> live in another file of the package: they are
  parameters. Given a byte source, a decoder returns its result and the number of bytes it
  took from the source, or \<open>None\<close> when it blocks on a silent source.
\<close>

record ('rq, 'rs) parser =
  ReadRequest :: "reader \<Rightarrow> ((error + 'rq) \<times> nat) option"
  ReadResponse :: "reader \<Rightarrow> ((error + 'rs) \<times> nat) option"

datatype netconn = NilConn | UDPConn | TCPConn

text \<open>
  Clock readings and durations in nanoseconds. \<open>Time.Sub\<close> saturates at the ends of the
  64-bit \<open>Duration\<close> range.
\<close>

type_synonym time = int

definition Second :: int where
  "Second = 1000000000"

definition maxDuration :: int where
  "maxDuration = 2 ^ 63 - 1"

definition minDuration :: int where
  "minDuration = - (2 ^ 63)"

definition Sub :: "time \<Rightarrow> time \<Rightarrow> int" where
  "Sub t u = (if t - u > maxDuration then maxDuration
              else if t - u < minDuration then minDuration else t - u)"

text \<open>What the connection does to the world outside it, in the order it happens.\<close>

datatype effect =
    Deregister string
  | WriteTo string bytes "error option"
  | ConnWrite bytes "error option"
  | ConnClose
  | Println string

section \<open>The connection\<close>

text \<open>
  \<open>Conn\<close> with the fields of the struct. \<open>listener\<close> is \<open>None\<close> for a nil pointer and
  otherwise holds the listener's \<open>udpPool\<close> (peer address to connection handle);
  \<open>address\<close> is \<open>c.address.String()\<close>. \<open>branchMutex\<close> has no field: each function below is
  one atomic step. Two fields stand for the world: \<open>inbound\<close>, the bytes the TCP socket
  will deliver, and \<open>effects\<close>, the trace of outward actions.
\<close>

record ('rq, 'rs) Conn =
  transport :: string
  listener :: "(string \<rightharpoonup> nat) option"
  conn :: netconn
  address :: string
  udpReceiver :: "goslice chan"
  closed :: bool
  locked :: bool
  writeBuffer :: bytes
  readMessage :: "('rq, 'rs) msg chan"
  lastMessage :: time
  receivedBranches :: "string \<rightharpoonup> time"
  inbound :: reader
  effects :: "effect list"

datatype 'a outcome = Returns 'a | Blocks | Panics

subsection \<open>Read, Lock, Unlock\<close>

definition Read_recv :: "('rq, 'rs) Conn \<Rightarrow> (('rq, 'rs) msg \<times> ('rq, 'rs) Conn) outcome" where
  \<comment> \<open>the receive of \<open>Read\<close>, where a caller that found the connection open waits\<close>
  "Read_recv c =
     (case chan_recv (readMessage c) of
        Recv m ch \<Rightarrow> Returns (m, c\<lparr>readMessage := ch\<rparr>)
      | RecvClosed \<Rightarrow> Returns (MError EOF, c)
      | RecvBlock \<Rightarrow> Blocks)"

definition Read :: "('rq, 'rs) Conn \<Rightarrow> (('rq, 'rs) msg \<times> ('rq, 'rs) Conn) outcome" where
  "Read c = (if closed c then Returns (MError EOF, c) else Read_recv c)"

definition Lock :: "('rq, 'rs) Conn \<Rightarrow> ('rq, 'rs) Conn" where
  "Lock c = c\<lparr>locked := True\<rparr>"

definition Unlock :: "('rq, 'rs) Conn \<Rightarrow> ('rq, 'rs) Conn" where
  "Unlock c = c\<lparr>locked := False\<rparr>"

subsection \<open>Write, Flush, Close\<close>

definition Write :: "('rq, 'rs) Conn \<Rightarrow> bytes \<Rightarrow> (int \<times> error option) \<times> ('rq, 'rs) Conn" where
  "Write c b =
     (if closed c then ((0, Some ErrClosedPipe), c)
      else ((int (length b), None), c\<lparr>writeBuffer := writeBuffer c @ b\<rparr>))"

definition Flush :: "error option \<Rightarrow> ('rq, 'rs) Conn \<Rightarrow> (error option \<times> ('rq, 'rs) Conn) outcome" where
  \<comment> \<open>\<open>io\<close> is what the socket's write call returns\<close>
  "Flush io c =
     (if closed c then Returns (Some ErrClosedPipe, c)
      else if transport c = ''udp'' then
        (case conn c of
           UDPConn \<Rightarrow>
             Returns (io, c\<lparr>effects := effects c @ [WriteTo (address c) (writeBuffer c) io],
                             writeBuffer := []\<rparr>)
         | _ \<Rightarrow> Panics)
      else
        (case conn c of
           NilConn \<Rightarrow> Panics
         | _ \<Rightarrow>
             Returns (io, c\<lparr>effects := effects c @ [ConnWrite (writeBuffer c) io],
                             writeBuffer := []\<rparr>)))"

definition closedConnError :: error where
  "closedConnError = OtherError ''use of closed network connection''"

definition Close :: "error option \<Rightarrow> ('rq, 'rs) Conn \<Rightarrow> (error option \<times> ('rq, 'rs) Conn) outcome" where
  \<comment> \<open>\<open>io\<close> is what \<open>c.conn.Close()\<close> returns; reads of a socket closed locally fail\<close>
  "Close io c =
     (if closed c then Returns (None, c)
      else
        let c1 = c\<lparr>closed := True\<rparr> in
        if transport c1 = ''udp'' then
          let c2 = (case listener c1 of
                      None \<Rightarrow> c1
                    | Some pool \<Rightarrow>
                        c1\<lparr>listener := Some (pool(address c1 := None)),
                           effects := effects c1 @ [Deregister (address c1)]\<rparr>)
          in (case chan_close (udpReceiver c2) of
                None \<Rightarrow> Panics
              | Some ch \<Rightarrow> Returns (None, c2\<lparr>udpReceiver := ch\<rparr>))
        else
          (case conn c1 of
             NilConn \<Rightarrow> Panics
           | _ \<Rightarrow>
               Returns (io, c1\<lparr>inbound := \<lparr>avail = [], after = Some closedConnError\<rparr>,
                               effects := effects c1 @ [ConnClose]\<rparr>)))"

definition writeReceivedUDP :: "('rq, 'rs) Conn \<Rightarrow> goslice \<Rightarrow> ('rq, 'rs) Conn outcome" where
  "writeReceivedUDP c b =
     (if closed c then Returns c
      else (case chan_send (udpReceiver c) b of
              Sent ch \<Rightarrow> Returns (c\<lparr>udpReceiver := ch\<rparr>)
            | SendBlock \<Rightarrow> Blocks
            | SendPanic \<Rightarrow> Panics))"

subsection \<open>readRequest, the internal dispatcher\<close>

text \<open>
  \<open>readRequest\<close> runs beside the tasks that call \<open>Lock\<close>, \<open>Unlock\<close>, \<open>Read\<close> and
  \<open>Close\<close>, so it is a machine of atomic steps, one per line of the loop that touches shared
  state: the test of \<open>c.closed\<close>, the wait on \<open>c.locked\<close>, the receive, the second test of
  \<open>c.locked\<close> with the type switch, and the send that puts a unit back.
\<close>

datatype ('rq, 'rs) dispatcher =
    AtTop
  | AtWait
  | AtRecv
  | Holding "('rq, 'rs) msg"
  | Requeue "('rq, 'rs) msg"
  | Returned "error + 'rq"
  | Crashed

fun readRequest_step ::
  "('rq, 'rs) dispatcher \<Rightarrow> ('rq, 'rs) Conn \<Rightarrow> ('rq, 'rs) dispatcher \<times> ('rq, 'rs) Conn" where
  "readRequest_step AtTop c = (if closed c then (Returned (Inl EOF), c) else (AtWait, c))"
| "readRequest_step AtWait c = (if locked c then (AtWait, c) else (AtRecv, c))"
| "readRequest_step AtRecv c =
     (case chan_recv (readMessage c) of
        Recv m ch \<Rightarrow> (Holding m, c\<lparr>readMessage := ch\<rparr>)
      | RecvClosed \<Rightarrow> (Returned (Inl EOF), c)
      | RecvBlock \<Rightarrow> (AtRecv, c))"
| "readRequest_step (Holding m) c =
     (if locked c then (Requeue m, c)
      else (case m of
              MError e \<Rightarrow> (Returned (Inl e), c)
            | MRequest r \<Rightarrow> (Returned (Inr r), c)
            | MResponse _ \<Rightarrow>
                (AtTop, c\<lparr>effects := effects c @
                   [Println ''warning: unhandled message type (likely a response)'']\<rparr>)))"
| "readRequest_step (Requeue m) c =
     (case chan_send (readMessage c) m of
        Sent ch \<Rightarrow> (AtTop, c\<lparr>readMessage := ch\<rparr>)
      | SendBlock \<Rightarrow> (Requeue m, c)
      | SendPanic \<Rightarrow> (Crashed, c))"
| "readRequest_step (Returned r) c = (Returned r, c)"
| "readRequest_step Crashed c = (Crashed, c)"



subsection \<open>The transport readers\<close>

text \<open>
  One turn of a reader's loop ends in one of these ways: the reader returns; it waits in a
  receive or a read; it panics; it goes round again; or it has a unit in hand and executes
  \<open>c.readMessage <- unit\<close>, which \<open>finish\<close> carries out (a full queue leaves the reader
  waiting in the send, unit in hand).
\<close>

datatype ('rq, 'rs) turn =
    Exit "('rq, 'rs) Conn"
  | WaitRecv
  | WaitSend "('rq, 'rs) msg" "('rq, 'rs) Conn"
  | Panic
  | Next "('rq, 'rs) Conn"
  | Enqueue "('rq, 'rs) msg" "('rq, 'rs) Conn"

definition finish :: "('rq, 'rs) turn \<Rightarrow> ('rq, 'rs) turn" where
  "finish t =
     (case t of
        Enqueue m c \<Rightarrow>
          (case chan_send (readMessage c) m of
             Sent ch \<Rightarrow> Next (c\<lparr>readMessage := ch\<rparr>)
           | SendBlock \<Rightarrow> WaitSend m c
           | SendPanic \<Rightarrow> Panic)
      | _ \<Rightarrow> t)"

definition udpReader_body ::
  "('rq, 'rs) parser \<Rightarrow> time \<Rightarrow> ('rq, 'rs) Conn \<Rightarrow> ('rq, 'rs) turn" where
  \<comment> \<open>\<open>now\<close> is the reading of \<open>time.Now()\<close>\<close>
  "udpReader_body P now c =
     (case chan_recv (udpReceiver c) of
        RecvClosed \<Rightarrow> Exit c
      | RecvBlock \<Rightarrow> WaitRecv
      | Recv received ch \<Rightarrow>
          let c1 = c\<lparr>udpReceiver := ch, lastMessage := now\<rparr> in
          if bytes_Compare (slice_bytes received) CRLFCRLF = 0 then Next (snd (Write c1 CRLF))
          else
            let rd = \<lparr>avail = slice_bytes received, after = Some EOF\<rparr> in
            (case slice_to received 3 of
               None \<Rightarrow> Panic
             | Some prefix \<Rightarrow>
                 if bytes_Compare prefix SIP = 0 then
                   (case ReadResponse P rd of
                      None \<Rightarrow> WaitRecv
                    | Some (Inl err, _) \<Rightarrow> Enqueue (MError err) c1
                    | Some (Inr resp, _) \<Rightarrow> Enqueue (MResponse resp) c1)
                 else
                   (case ReadRequest P rd of
                      None \<Rightarrow> WaitRecv
                    | Some (Inl err, _) \<Rightarrow> Enqueue (MError err) c1
                    | Some (Inr req, _) \<Rightarrow> Enqueue (MRequest req) c1)))"

definition udpReader_turn ::
  "('rq, 'rs) parser \<Rightarrow> time \<Rightarrow> ('rq, 'rs) Conn \<Rightarrow> ('rq, 'rs) turn" where
  "udpReader_turn P now c = finish (udpReader_body P now c)"


definition took :: "nat \<Rightarrow> ('rq, 'rs) Conn \<Rightarrow> ('rq, 'rs) Conn" where
  \<comment> \<open>a decoder took \<open>n\<close> bytes from the 3 sniffed bytes followed by the socket\<close>
  "took n c = c\<lparr>inbound := (inbound c)\<lparr>avail := drop (n - 3) (avail (inbound c))\<rparr>\<rparr>"

definition tcpReader_body ::
  "('rq, 'rs) parser \<Rightarrow> error option \<Rightarrow> ('rq, 'rs) Conn \<Rightarrow> ('rq, 'rs) turn" where
  \<comment> \<open>\<open>io\<close> is what the socket's close call returns, should the reader close\<close>
  "tcpReader_body P io c =
     (case ReadFull (inbound c) 3 of
        None \<Rightarrow> WaitRecv
      | Some (sniffed, err, r) \<Rightarrow>
          let c1 = c\<lparr>inbound := r\<rparr> in
          if err \<noteq> None \<and> (err = Some ErrUnexpectedEOF \<or> err = Some EOF) then
            (case Close io c1 of Returns (_, c2) \<Rightarrow> Exit c2 | _ \<Rightarrow> Panic)
          else
            let rd = \<lparr>avail = sniffed @ avail r, after = after r\<rparr> in
            if bytes_Compare sniffed SIP = 0 then
              (case ReadResponse P rd of
                 None \<Rightarrow> WaitRecv
               | Some (Inl err, n) \<Rightarrow> Enqueue (MError err) (took n c1)
               | Some (Inr resp, n) \<Rightarrow> Enqueue (MResponse resp) (took n c1))
            else
              (case ReadRequest P rd of
                 None \<Rightarrow> WaitRecv
               | Some (Inl err, n) \<Rightarrow> Enqueue (MError err) (took n c1)
               | Some (Inr req, n) \<Rightarrow> Enqueue (MRequest req) (took n c1)))"

definition tcpReader_turn ::
  "('rq, 'rs) parser \<Rightarrow> error option \<Rightarrow> ('rq, 'rs) Conn \<Rightarrow> ('rq, 'rs) turn" where
  "tcpReader_turn P io c = finish (tcpReader_body P io c)"

fun tcpReader :: "('rq, 'rs) parser \<Rightarrow> error option \<Rightarrow> nat \<Rightarrow> ('rq, 'rs) Conn \<Rightarrow> ('rq, 'rs) turn" where
  \<comment> \<open>the loop for at most \<open>n\<close> turns; \<open>Next\<close> when it is still running after them\<close>
  "tcpReader P io 0 c = Next c"
| "tcpReader P io (Suc n) c =
     (case tcpReader_turn P io c of Next c' \<Rightarrow> tcpReader P io n c' | t \<Rightarrow> t)"

subsection \<open>The branch janitor\<close>

definition sweep :: "(string \<Rightarrow> time) \<Rightarrow> (string \<rightharpoonup> time) \<Rightarrow> (string \<rightharpoonup> time)" where
  \<comment> \<open>the \<open>range\<close> loop: \<open>now branch\<close> is the reading of \<open>time.Now()\<close> when \<open>branch\<close> is
      visited (every entry is visited once)\<close>
  "sweep now m =
     (\<lambda>branch. case m branch of
                  None \<Rightarrow> None
                | Some t \<Rightarrow> if Sub (now branch) t > 30 * Second then None else Some t)"

definition branchJanitor_tick ::
  "(string \<Rightarrow> time) \<Rightarrow> ('rq, 'rs) Conn \<Rightarrow> ('rq, 'rs) Conn option" where
  \<comment> \<open>what follows one \<open>time.Sleep\<close>: \<open>None\<close> when the janitor returns\<close>
  "branchJanitor_tick now c =
     (if closed c then None
      else Some (c\<lparr>receivedBranches := sweep now (receivedBranches c)\<rparr>))"

fun branchJanitor :: "(string \<Rightarrow> time) list \<Rightarrow> ('rq, 'rs) Conn \<Rightarrow> ('rq, 'rs) Conn" where
  \<comment> \<open>the loop over the wake-ups of the given schedule\<close>
  "branchJanitor [] c = c"
| "branchJanitor (now # nows) c =
     (case branchJanitor_tick now c of None \<Rightarrow> c | Some c' \<Rightarrow> branchJanitor nows c')"

definition wake :: "time \<Rightarrow> nat \<Rightarrow> time" where
  \<comment> \<open>the \<open>k\<close>-th wake-up of a janitor started at \<open>start\<close> whose sleeps last exactly 10 s\<close>
  "wake start k = start + int k * (10 * Second)"

definition wakeups :: "time \<Rightarrow> nat \<Rightarrow> (string \<Rightarrow> time) list" where
  "wakeups start n = map (\<lambda>k. (\<lambda>_. wake start k)) [1..<Suc n]"

section \<open>Sequences of calls\<close>

text \<open>A caller's use of the API after the connection was closed: the calls and their replies.\<close>

datatype call = CallRead | CallWrite bytes | CallFlush "error option"

datatype ('rq, 'rs) reply =
    ReadReply "('rq, 'rs) msg"
  | WriteReply int "error option"
  | FlushReply "error option"
  | NoReply

fun call_once :: "call \<Rightarrow> ('rq, 'rs) Conn \<Rightarrow> ('rq, 'rs) reply \<times> ('rq, 'rs) Conn" where
  "call_once CallRead c =
     (case Read c of Returns (m, c') \<Rightarrow> (ReadReply m, c') | _ \<Rightarrow> (NoReply, c))"
| "call_once (CallWrite b) c =
     (case Write c b of ((n, err), c') \<Rightarrow> (WriteReply n err, c'))"
| "call_once (CallFlush io) c =
     (case Flush io c of Returns (err, c') \<Rightarrow> (FlushReply err, c') | _ \<Rightarrow> (NoReply, c))"

fun calls :: "call list \<Rightarrow> ('rq, 'rs) Conn \<Rightarrow> ('rq, 'rs) reply list \<times> ('rq, 'rs) Conn" where
  "calls [] c = ([], c)"
| "calls (x # xs) c =
     (case call_once x c of (r, c') \<Rightarrow> (case calls xs c' of (rs, c'') \<Rightarrow> (r # rs, c'')))"

fun closed_reply :: "call \<Rightarrow> ('rq, 'rs) reply" where
  "closed_reply CallRead = ReadReply (MError EOF)"
| "closed_reply (CallWrite b) = WriteReply 0 (Some ErrClosedPipe)"
| "closed_reply (CallFlush io) = FlushReply (Some ErrClosedPipe)"

fun Write_all :: "('rq, 'rs) Conn \<Rightarrow> bytes list \<Rightarrow> ('rq, 'rs) Conn" where
  \<comment> \<open>\<open>Write\<close> called once for each slice, in order\<close>
  "Write_all c [] = c"
| "Write_all c (b # bs) = Write_all (snd (Write c b)) bs"

fun Close_all :: "error option list \<Rightarrow> ('rq, 'rs) Conn \<Rightarrow> (error option list \<times> ('rq, 'rs) Conn) outcome" where
  \<comment> \<open>\<open>Close\<close> called once for each socket outcome, in order\<close>
  "Close_all [] c = Returns ([], c)"
| "Close_all (io # ios) c =
     (case Close io c of
        Returns (r, c') \<Rightarrow>
          (case Close_all ios c' of
             Returns (rs, c'') \<Rightarrow> Returns (r # rs, c'')
           | Blocks \<Rightarrow> Blocks
           | Panics \<Rightarrow> Panics)
      | Blocks \<Rightarrow> Blocks
      | Panics \<Rightarrow> Panics)"

text \<open>
  Every function of the file as one action on the connection; \<open>None\<close> where the action
  blocks, panics or leaves no connection state behind.
\<close>

datatype ('rq, 'rs) action =
    DoRead
  | DoLock
  | DoUnlock
  | DoWrite bytes
  | DoFlush "error option"
  | DoClose "error option"
  | DoReceived goslice
  | DoUdpReader time
  | DoTcpReader "error option"
  | DoJanitor "string \<Rightarrow> time"
  | DoReadRequest "('rq, 'rs) dispatcher"

fun turn_conn :: "('rq, 'rs) turn \<Rightarrow> ('rq, 'rs) Conn option" where
  \<comment> \<open>the connection a reader's turn leaves behind\<close>
  "turn_conn (Exit c) = Some c"
| "turn_conn WaitRecv = None"
| "turn_conn (WaitSend m c) = Some c"
| "turn_conn Panic = None"
| "turn_conn (Next c) = Some c"
| "turn_conn (Enqueue m c) = Some c"

fun perform ::
  "('rq, 'rs) parser \<Rightarrow> ('rq, 'rs) action \<Rightarrow> ('rq, 'rs) Conn \<Rightarrow> ('rq, 'rs) Conn option" where
  "perform P DoRead c = (case Read c of Returns (_, c') \<Rightarrow> Some c' | _ \<Rightarrow> None)"
| "perform P DoLock c = Some (Lock c)"
| "perform P DoUnlock c = Some (Unlock c)"
| "perform P (DoWrite b) c = Some (snd (Write c b))"
| "perform P (DoFlush io) c = (case Flush io c of Returns (_, c') \<Rightarrow> Some c' | _ \<Rightarrow> None)"
| "perform P (DoClose io) c = (case Close io c of Returns (_, c') \<Rightarrow> Some c' | _ \<Rightarrow> None)"
| "perform P (DoReceived b) c =
     (case writeReceivedUDP c b of Returns c' \<Rightarrow> Some c' | _ \<Rightarrow> None)"
| "perform P (DoUdpReader now) c = turn_conn (udpReader_turn P now c)"
| "perform P (DoTcpReader io) c = turn_conn (tcpReader_turn P io c)"
| "perform P (DoJanitor now) c = branchJanitor_tick now c"
| "perform P (DoReadRequest pc) c = Some (snd (readRequest_step pc c))"

fun performs ::
  "('rq, 'rs) parser \<Rightarrow> ('rq, 'rs) action list \<Rightarrow> ('rq, 'rs) Conn \<Rightarrow> ('rq, 'rs) Conn option" where
  "performs P [] c = Some c"
| "performs P (a # as) c =
     (case perform P a c of None \<Rightarrow> None | Some c' \<Rightarrow> performs P as c')"

definition deregistrations :: "('rq, 'rs) Conn \<Rightarrow> nat" where
  "deregistrations c = length (filter (\<lambda>e. case e of Deregister _ \<Rightarrow> True | _ \<Rightarrow> False) (effects c))"

section \<open>The dispatch rule in the words of the specification\<close>




section \<open>Sample connections\<close>

definition no_chan :: "nat \<Rightarrow> 'a chan" where
  "no_chan n = \<lparr>buf = [], cap = n, chan_closed = False\<rparr>"

definition udp0 :: "(nat, nat) Conn" where
  \<comment> \<open>an open UDP connection of a listener, nothing queued, nothing written\<close>
  "udp0 =
     \<lparr>transport = ''udp'', listener = Some [''10.0.0.7:5060'' \<mapsto> 1], conn = UDPConn,
      address = ''10.0.0.7:5060'', udpReceiver = no_chan 8, closed = False, locked = False,
      writeBuffer = [], readMessage = no_chan 8, lastMessage = 0,
      receivedBranches = Map.empty, inbound = \<lparr>avail = [], after = None\<rparr>, effects = []\<rparr>"

definition tcp0 :: "(nat, nat) Conn" where
  \<comment> \<open>an open TCP connection on a silent socket\<close>
  "tcp0 =
     \<lparr>transport = ''tcp'', listener = None, conn = TCPConn,
      address = ''10.0.0.9:5060'', udpReceiver = no_chan 0, closed = False, locked = False,
      writeBuffer = [], readMessage = no_chan 8, lastMessage = 0,
      receivedBranches = Map.empty, inbound = \<lparr>avail = [], after = None\<rparr>, effects = []\<rparr>"

definition toy :: "(nat, nat) parser" where
  \<comment> \<open>a stand-in decoder: it takes every byte there is, fails on a line that does not end in
      LF, and otherwise returns the number of bytes as the message\<close>
  "toy =
     \<lparr>ReadRequest = (\<lambda>r. Some (if avail r \<noteq> [] \<and> last (avail r) = 0x0A
                                then Inr (length (avail r))
                                else Inl (OtherError ''malformed request''), length (avail r))),
      ReadResponse = (\<lambda>r. Some (if avail r \<noteq> [] \<and> last (avail r) = 0x0A
                                 then Inr (length (avail r))
                                 else Inl (OtherError ''malformed response''), length (avail r)))\<rparr>"



definition datagram_waiting :: "bytes \<Rightarrow> (nat, nat) Conn" where
  \<comment> \<open>\<open>udp0\<close> with one datagram waiting for the reader, in a slice of exactly its length\<close>
  "datagram_waiting bs =
     udp0\<lparr>udpReceiver := \<lparr>buf = [slice_of bs], cap = 8, chan_closed = False\<rparr>\<rparr>"

definition tcp_reset :: "(nat, nat) Conn" where
  \<comment> \<open>\<open>tcp0\<close> on a socket whose reads fail with an error that is not an end of stream\<close>
  "tcp_reset =
     tcp0\<lparr>inbound := \<lparr>avail = [], after = Some (OtherError ''connection reset by peer'')\<rparr>\<rparr>"


definition branch_seen :: "(nat, nat) Conn" where
  \<comment> \<open>\<open>udp0\<close> with one branch recorded at the clock reading of 100 s\<close>
  "branch_seen = udp0\<lparr>receivedBranches := [''z9hG4bK123'' \<mapsto> 100 * Second]\<rparr>"

section \<open>Basic facts\<close>

lemma bytes_Compare_eq: "bytes_Compare a b = 0 \<longleftrightarrow> a = b"
  by (induction a b rule: bytes_Compare.induct) auto

lemma Close_closed: "Close io c = Returns (r, c') \<Longrightarrow> closed c'"
  by (auto simp: Close_def Let_def chan_close_def split: if_splits option.splits netconn.splits)

lemma call_once_closed: "closed c \<Longrightarrow> call_once x c = (closed_reply x, c)"
  by (cases x) (simp_all add: Read_def Write_def Flush_def)

lemma calls_closed: "closed c \<Longrightarrow> calls xs c = (map closed_reply xs, c)"
  by (induction xs) (simp_all add: call_once_closed)

lemma Close_udp0:
  "Close None udp0 =
     Returns (None, udp0\<lparr>closed := True, listener := Some Map.empty,
                         effects := [Deregister ''10.0.0.7:5060''],
                         udpReceiver := \<lparr>buf = [], cap = 8, chan_closed = True\<rparr>\<rparr>)"
  by (simp add: Close_def udp0_def Let_def chan_close_def no_chan_def)

lemma Write_all_open:
  "\<not> closed c \<Longrightarrow> Write_all c bs = c\<lparr>writeBuffer := writeBuffer c @ concat bs\<rparr>"
  by (induction bs arbitrary: c) (simp_all add: Write_def)

section \<open>After Close\<close>

text \<open>
  C4. Once \<open>Close\<close> has returned, every \<open>Read\<close> returns \<open>io.EOF\<close>, every \<open>Write\<close> returns
  \<open>(0, io.ErrClosedPipe)\<close> and every \<open>Flush\<close> returns \<open>io.ErrClosedPipe\<close>, whatever the
  number and order of the calls, and the calls leave the connection as it was.
\<close>

theorem closed_calls_fail:
  assumes "Close io c = Returns (r, c')"
  shows "calls xs c' = (map closed_reply xs, c') \<and>
         Read c' = Returns (MError EOF, c') \<and>
         Write c' b = ((0, Some ErrClosedPipe), c') \<and>
         Flush io' c' = Returns (Some ErrClosedPipe, c')"
  using Close_closed [OF assms] by (simp add: calls_closed Read_def Write_def Flush_def)

theorem closed_calls_fail_witness:
  "\<exists>c'. Close None udp0 = Returns (None, c') \<and>
     calls [CallRead, CallRead, CallRead, CallWrite CRLF, CallWrite CRLF, CallWrite CRLF,
            CallFlush None, CallFlush None, CallFlush None] c' =
       ([ReadReply (MError EOF), ReadReply (MError EOF), ReadReply (MError EOF),
         WriteReply 0 (Some ErrClosedPipe), WriteReply 0 (Some ErrClosedPipe),
         WriteReply 0 (Some ErrClosedPipe), FlushReply (Some ErrClosedPipe),
         FlushReply (Some ErrClosedPipe), FlushReply (Some ErrClosedPipe)], c')"
  using closed_calls_fail [OF Close_udp0,
      of "[CallRead, CallRead, CallRead, CallWrite CRLF, CallWrite CRLF, CallWrite CRLF,
            CallFlush None, CallFlush None, CallFlush None]"] Close_udp0
  by simp

section \<open>Write and Flush\<close>

text \<open>
  C5. On an open UDP connection whose buffer is empty (as a flush leaves it), any sequence
  of \<open>Write\<close> calls followed by one \<open>Flush\<close> makes exactly one \<open>WriteTo\<close> call, to the peer
  address, with the concatenation of the written slices in write order. The buffer is empty
  afterwards whether the call succeeded or failed (\<open>io\<close> is arbitrary), so the next \<open>Flush\<close>
  carries none of those bytes.
\<close>

theorem flush_sends_concat:
  assumes "\<not> closed c" and "transport c = ''udp''" and "conn c = UDPConn"
    and "writeBuffer c = []"
  shows "\<exists>c'. Flush io (Write_all c bs) = Returns (io, c') \<and>
           effects c' = effects c @ [WriteTo (address c) (concat bs) io] \<and>
           writeBuffer c' = [] \<and>
           (\<exists>c''. Flush io2 c' = Returns (io2, c'') \<and>
                  effects c'' = effects c' @ [WriteTo (address c) [] io2])"
  using assms by (simp add: Write_all_open Flush_def)

theorem flush_sends_concat_witness:
  "\<exists>c'. Flush (Some (OtherError ''network is unreachable''))
            (Write_all udp0 [[0x41], [0x42], [0x43]]) =
            Returns (Some (OtherError ''network is unreachable''), c') \<and>
        effects c' = [WriteTo ''10.0.0.7:5060'' [0x41, 0x42, 0x43]
                        (Some (OtherError ''network is unreachable''))] \<and>
        writeBuffer c' = [] \<and>
        (\<exists>c''. Flush None c' = Returns (None, c'') \<and>
               effects c'' = effects c' @ [WriteTo ''10.0.0.7:5060'' [] None])"
  using flush_sends_concat [of udp0 "Some (OtherError ''network is unreachable'')"
      "[[0x41], [0x42], [0x43]]" None]
  by (simp add: udp0_def)

section \<open>Close\<close>

lemma Close_again: "closed c \<Longrightarrow> Close io c = Returns (None, c)"
  by (simp add: Close_def)

lemma Close_all_closed:
  "closed c \<Longrightarrow> Close_all ios c = Returns (replicate (length ios) None, c)"
  by (induction ios) (simp_all add: Close_again)

lemma finish_conn:
  "turn_conn (finish t) = Some c' \<Longrightarrow>
     \<exists>c. turn_conn t = Some c \<and> closed c' = closed c \<and>
         chan_closed (readMessage c') = chan_closed (readMessage c)"
  by (cases t) (auto simp: finish_def chan_send_def split: if_splits)

lemma udpReader_body_conn:
  "turn_conn (udpReader_body P now c) = Some c' \<Longrightarrow>
     closed c' = closed c \<and> readMessage c' = readMessage c \<and> effects c' = effects c"
  by (auto simp: udpReader_body_def Let_def Write_def
      split: recv.splits if_splits option.splits sum.splits prod.splits)

lemma tcpReader_body_conn:
  "turn_conn (tcpReader_body P io c) = Some c' \<Longrightarrow>
     (closed c \<longrightarrow> closed c') \<and> readMessage c' = readMessage c"
  by (auto simp: tcpReader_body_def Let_def took_def Close_def chan_close_def
      split: recv.splits if_splits option.splits sum.splits prod.splits outcome.splits
        netconn.splits)

lemma readRequest_step_frame:
  "readRequest_step pc c = (pc', c') \<Longrightarrow>
     closed c' = closed c \<and> chan_closed (readMessage c') = chan_closed (readMessage c)"
  by (cases pc)
    (auto simp: chan_recv_def chan_send_def split: if_splits list.splits msg.splits)

lemma perform_frame:
  assumes "perform P a c = Some c'"
  shows "(closed c \<longrightarrow> closed c') \<and> chan_closed (readMessage c') = chan_closed (readMessage c)"
proof (cases a)
  case DoRead
  with assms show ?thesis
    by (auto simp: Read_def Read_recv_def chan_recv_def
        split: if_splits list.splits outcome.splits)
next
  case (DoFlush io)
  with assms show ?thesis
    by (auto simp: Flush_def split: if_splits netconn.splits outcome.splits)
next
  case (DoClose io)
  with assms show ?thesis
    by (auto simp: Close_def Let_def chan_close_def
        split: if_splits netconn.splits outcome.splits option.splits)
next
  case (DoReceived b)
  with assms show ?thesis
    by (auto simp: writeReceivedUDP_def chan_send_def split: if_splits outcome.splits)
next
  case (DoUdpReader now)
  with assms have "turn_conn (finish (udpReader_body P now c)) = Some c'"
    by (simp add: udpReader_turn_def)
  from finish_conn [OF this] udpReader_body_conn [of P now c] show ?thesis by auto
next
  case (DoTcpReader io)
  with assms have "turn_conn (finish (tcpReader_body P io c)) = Some c'"
    by (simp add: tcpReader_turn_def)
  from finish_conn [OF this] tcpReader_body_conn [of P io c] show ?thesis by auto
next
  case (DoJanitor now)
  with assms show ?thesis by (auto simp: branchJanitor_tick_def split: if_splits)
next
  case (DoReadRequest pc)
  with assms readRequest_step_frame [of pc c "fst (readRequest_step pc c)" c']
  show ?thesis by auto
qed (use assms in \<open>auto simp: Lock_def Unlock_def Write_def split: if_splits\<close>)

lemma performs_frame:
  "performs P as c = Some c' \<Longrightarrow>
     (closed c \<longrightarrow> closed c') \<and> chan_closed (readMessage c') = chan_closed (readMessage c)"
proof (induction as arbitrary: c)
  case Nil
  then show ?case by simp
next
  case (Cons a as)
  then obtain c1 where 1: "perform P a c = Some c1" and 2: "performs P as c1 = Some c'"
    by (auto split: option.splits)
  from perform_frame [OF 1] Cons.IH [OF 2] show ?case by simp
qed


lemma Close_open_udp:
  assumes "\<not> closed c" and "transport c = ''udp''" and "Close io c = Returns (r, c1)"
  shows "r = None \<and> chan_close (udpReceiver c) = Some (udpReceiver c1) \<and>
         readMessage c1 = readMessage c \<and>
         (case listener c of
            None \<Rightarrow> listener c1 = None \<and> effects c1 = effects c
          | Some pool \<Rightarrow>
              listener c1 = Some (pool(address c := None)) \<and>
              effects c1 = effects c @ [Deregister (address c)])"
  using assms
  by (auto simp: Close_def Let_def chan_close_def split: if_splits option.splits)

lemma Close_open_tcp:
  assumes "\<not> closed c" and "transport c \<noteq> ''udp''" and "Close io c = Returns (r, c1)"
  shows "r = io \<and> effects c1 = effects c @ [ConnClose] \<and> readMessage c1 = readMessage c \<and>
         listener c1 = listener c \<and> udpReceiver c1 = udpReceiver c"
  using assms
  by (auto simp: Close_def Let_def split: if_splits netconn.splits)

text \<open>
  C8. \<open>Close\<close> takes effect once. When a call returns, the connection is closed; every
  later \<open>Close\<close> returns \<open>nil\<close> and leaves the connection, the listener's pool and the
  trace of outward actions exactly as they were; no function of the file makes a closed
  connection open again. The call that closes an open UDP connection closes \<open>udpReceiver\<close>
  and, when the connection has a listener, deletes its address from the pool by one
  deregistration; on any other transport it closes the socket once.
\<close>

theorem Close_once:
  assumes "Close io c = Returns (r, c1)"
  shows "closed c1 \<and>
         Close_all ios c1 = Returns (replicate (length ios) None, c1) \<and>
         (\<forall>P as c2. performs P as c1 = Some c2 \<longrightarrow> closed c2) \<and>
         (\<not> closed c \<and> transport c = ''udp'' \<longrightarrow>
            chan_close (udpReceiver c) = Some (udpReceiver c1) \<and>
            (case listener c of
               None \<Rightarrow> listener c1 = None \<and> deregistrations c1 = deregistrations c
             | Some pool \<Rightarrow>
                 listener c1 = Some (pool(address c := None)) \<and>
                 effects c1 = effects c @ [Deregister (address c)] \<and>
                 deregistrations c1 = Suc (deregistrations c))) \<and>
         (\<not> closed c \<and> transport c \<noteq> ''udp'' \<longrightarrow> effects c1 = effects c @ [ConnClose])"
proof -
  have 1: "closed c1" using assms by (rule Close_closed)
  have 2: "\<forall>P as c2. performs P as c1 = Some c2 \<longrightarrow> closed c2"
    using performs_frame 1 by blast
  have 3: "\<not> closed c \<and> transport c = ''udp'' \<longrightarrow>
            chan_close (udpReceiver c) = Some (udpReceiver c1) \<and>
            (case listener c of
               None \<Rightarrow> listener c1 = None \<and> deregistrations c1 = deregistrations c
             | Some pool \<Rightarrow>
                 listener c1 = Some (pool(address c := None)) \<and>
                 effects c1 = effects c @ [Deregister (address c)] \<and>
                 deregistrations c1 = Suc (deregistrations c))"
    using Close_open_udp [of c io r c1] assms
    by (auto simp: deregistrations_def split: option.splits)
  have 4: "\<not> closed c \<and> transport c \<noteq> ''udp'' \<longrightarrow> effects c1 = effects c @ [ConnClose]"
    using Close_open_tcp [of c io r c1] assms by auto
  from 1 2 3 4 Close_all_closed [OF 1] show ?thesis by blast
qed

theorem Close_once_witness:
  "\<exists>c1. Close None udp0 = Returns (None, c1) \<and> closed c1 \<and>
     Close_all [None, None, None] c1 = Returns ([None, None, None], c1) \<and>
     (\<exists>c2. performs toy [DoUnlock, DoWrite CRLF, DoClose None, DoRead] c1 = Some c2 \<and> closed c2) \<and>
     listener c1 = Some Map.empty \<and>
     effects c1 = [Deregister ''10.0.0.7:5060''] \<and>
     deregistrations c1 = 1 \<and> deregistrations udp0 = 0"
proof -
  let ?c1 = "udp0\<lparr>closed := True, listener := Some Map.empty,
                  effects := [Deregister ''10.0.0.7:5060''],
                  udpReceiver := \<lparr>buf = [], cap = 8, chan_closed = True\<rparr>\<rparr>"
  have p: "performs toy [DoUnlock, DoWrite CRLF, DoClose None, DoRead] ?c1 = Some (Unlock ?c1)"
    by (simp add: Unlock_def Write_def Close_def Read_def)
  from Close_once [OF Close_udp0, of "[None, None, None]"] p
  have "closed (Unlock ?c1)" by blast
  with Close_once [OF Close_udp0, of "[None, None, None]"] p Close_udp0
  show ?thesis by (simp add: udp0_def deregistrations_def)
qed






section \<open>The dispatcher and the Gate\<close>






section \<open>The UDP keep-alive\<close>

lemma keepalive_turn:
  assumes "chan_recv (udpReceiver c) = Recv d ch" and "slice_bytes d = CRLFCRLF"
  shows "udpReader_turn P now c = Next (snd (Write (c\<lparr>udpReceiver := ch, lastMessage := now\<rparr>) CRLF))"
  using assms by (simp add: udpReader_turn_def udpReader_body_def finish_def bytes_Compare_eq)

text \<open>
  C3 on the code. The reader answers the 4-byte probe with \<open>c.Write\<close> alone: the two
  reply bytes go into the write buffer, nothing is enqueued, and no datagram leaves, since
  the reader never calls \<open>Flush\<close>. Evaluated on an open UDP connection with an empty write
  buffer and the probe waiting.
\<close>

theorem keepalive_not_flushed:
  "\<exists>c'. udpReader_turn toy 5 (datagram_waiting CRLFCRLF) = Next c' \<and>
        effects c' = [] \<and> writeBuffer c' = CRLF \<and> buf (readMessage c') = [] \<and>
        buf (udpReceiver c') = []"
proof -
  have r: "chan_recv (udpReceiver (datagram_waiting CRLFCRLF)) = Recv (slice_of CRLFCRLF) (no_chan 8)"
    by (simp add: datagram_waiting_def chan_recv_def no_chan_def)
  have b: "slice_bytes (slice_of CRLFCRLF) = CRLFCRLF"
    by (simp add: slice_bytes_def slice_of_def)
  show ?thesis
    unfolding keepalive_turn [OF r b]
    by (simp add: Write_def datagram_waiting_def udp0_def no_chan_def)
qed

section \<open>The TCP sniff\<close>

lemma sniff_end_of_stream:
  assumes "ReadFull (inbound c) 3 = Some (p, Some e, r)" and "e = EOF \<or> e = ErrUnexpectedEOF"
    and "Close io (c\<lparr>inbound := r\<rparr>) = Returns (x, c2)"
  shows "tcpReader_turn P io c = Exit c2 \<and> closed c2"
  using assms Close_closed [OF assms(3)]
  by (auto simp: tcpReader_turn_def tcpReader_body_def finish_def)

text \<open>
  C6 on the code. When the 3-byte read fails with an error that is neither \<open>io.EOF\<close> nor
  \<open>io.ErrUnexpectedEOF\<close>, the reader neither closes nor returns: it decodes the zeroed
  buffer, enqueues the outcome and goes round again, turn after turn. The error of a socket
  that \<open>Close\<close> has closed locally is such an error.
\<close>

theorem sniff_error_not_terminal:
  "(\<exists>c'. tcpReader_turn toy None tcp_reset = Next c' \<and> \<not> closed c' \<and> effects c' = [] \<and>
         buf (readMessage c') = [MError (OtherError ''malformed request'')]) \<and>
   (\<exists>c3. tcpReader toy None 3 tcp_reset = Next c3 \<and> \<not> closed c3 \<and>
         length (buf (readMessage c3)) = 3) \<and>
   (\<exists>c1 c2. Close None tcp0 = Returns (None, c1) \<and> tcpReader_turn toy None c1 = Next c2 \<and>
         buf (readMessage c2) = [MError (OtherError ''malformed request'')])"
proof -
  have t: "\<And>q. length q < 8 \<Longrightarrow>
    tcpReader_turn toy None (tcp_reset\<lparr>readMessage := \<lparr>buf = q, cap = 8, chan_closed = False\<rparr>\<rparr>) =
      Next (tcp_reset\<lparr>readMessage :=
        \<lparr>buf = q @ [MError (OtherError ''malformed request'')], cap = 8, chan_closed = False\<rparr>\<rparr>)"
    by (simp add: tcpReader_turn_def tcpReader_body_def finish_def ReadFull_def tcp_reset_def
        tcp0_def no_chan_def Let_def SIP_def toy_def took_def chan_send_def numeral_3_eq_3)
  have e: "tcp_reset = tcp_reset\<lparr>readMessage := \<lparr>buf = [], cap = 8, chan_closed = False\<rparr>\<rparr>"
    by (simp add: tcp_reset_def tcp0_def no_chan_def)
  have 1: "tcpReader_turn toy None tcp_reset = Next (tcp_reset\<lparr>readMessage :=
        \<lparr>buf = [MError (OtherError ''malformed request'')], cap = 8, chan_closed = False\<rparr>\<rparr>)"
    using t [of "[]"] e by simp
  have 2: "tcpReader toy None 3 tcp_reset = Next (tcp_reset\<lparr>readMessage :=
        \<lparr>buf = [MError (OtherError ''malformed request''), MError (OtherError ''malformed request''),
                MError (OtherError ''malformed request'')], cap = 8, chan_closed = False\<rparr>\<rparr>)"
    using 1 t [of "[MError (OtherError ''malformed request'')]"]
      t [of "[MError (OtherError ''malformed request''), MError (OtherError ''malformed request'')]"]
    by (simp add: numeral_3_eq_3)
  let ?c1 = "tcp0\<lparr>closed := True, inbound := \<lparr>avail = [], after = Some closedConnError\<rparr>,
                 effects := [ConnClose]\<rparr>"
  have 3: "Close None tcp0 = Returns (None, ?c1)"
    by (simp add: Close_def tcp0_def Let_def)
  have 4: "tcpReader_turn toy None ?c1 = Next (?c1\<lparr>readMessage :=
        \<lparr>buf = [MError (OtherError ''malformed request'')], cap = 8, chan_closed = False\<rparr>\<rparr>)"
    by (simp add: tcpReader_turn_def tcpReader_body_def finish_def ReadFull_def closedConnError_def
        tcp0_def no_chan_def Let_def SIP_def toy_def took_def chan_send_def numeral_3_eq_3)
  have 5: "\<not> closed tcp_reset" "effects tcp_reset = []" by (simp_all add: tcp_reset_def tcp0_def)
  have a: "\<exists>c'. tcpReader_turn toy None tcp_reset = Next c' \<and> \<not> closed c' \<and>
         effects c' = [] \<and> buf (readMessage c') = [MError (OtherError ''malformed request'')]"
    unfolding 1 using 5 by simp
  have b: "\<exists>c3. tcpReader toy None 3 tcp_reset = Next c3 \<and> \<not> closed c3 \<and>
         length (buf (readMessage c3)) = 3"
    unfolding 2 using 5 by simp
  have c: "\<exists>c1 c2. Close None tcp0 = Returns (None, c1) \<and>
         tcpReader_turn toy None c1 = Next c2 \<and>
         buf (readMessage c2) = [MError (OtherError ''malformed request'')]"
    using 3 4 by simp
  from a b c show ?thesis by blast
qed

section \<open>Dispatch on the first three bytes\<close>






section \<open>Datagrams shorter than three bytes\<close>





section \<open>Eviction from the branch table\<close>

lemma Sub_gt: "Sub a b > 30 * Second \<longleftrightarrow> a - b > 30 * Second"
  by (simp add: Sub_def maxDuration_def minDuration_def Second_def)

lemma sweep_apply:
  "sweep now m k =
     (case m k of None \<Rightarrow> None | Some t \<Rightarrow> if now k - t > 30 * Second then None else Some t)"
  by (simp add: sweep_def Sub_gt split: option.splits)

lemma branchJanitor_open:
  "\<not> closed c \<Longrightarrow>
     branchJanitor nows c = c\<lparr>receivedBranches := fold sweep nows (receivedBranches c)\<rparr>"
  by (induction nows arbitrary: c) (simp_all add: branchJanitor_tick_def)

lemma fold_sweep_keep:
  "m b = Some T \<Longrightarrow> (\<And>now. now \<in> set nows \<Longrightarrow> now b \<le> T + 30 * Second) \<Longrightarrow>
     fold sweep nows m b = Some T"
proof (induction nows arbitrary: m)
  case Nil
  then show ?case by simp
next
  case (Cons now nows)
  have "now b \<le> T + 30 * Second" using Cons.prems(2) by simp
  with Cons.prems(1) have "sweep now m b = Some T" by (simp add: sweep_apply)
  then show ?case using Cons.prems(2) by (simp add: Cons.IH)
qed

lemma wakeups_Suc: "wakeups start (Suc n) = wakeups start n @ [\<lambda>_. wake start (Suc n)]"
  by (simp add: wakeups_def)

lemma wakeups_set:
  assumes "now \<in> set (wakeups start n)"
  shows "\<exists>j\<le>n. now b = wake start j"
proof -
  from assms obtain j where "j \<in> set [1..<Suc n]" and "now = (\<lambda>_. wake start j)"
    unfolding wakeups_def by auto
  then have "j \<le> n" and "now b = wake start j" by auto
  then show ?thesis by blast
qed

lemma first_wake_after:
  assumes "start \<le> T"
  shows "\<exists>k>0. T + 30 * Second < wake start k \<and> wake start k \<le> T + 40 * Second \<and>
           (\<forall>j\<le>k - 1. wake start j \<le> T + 30 * Second)"
proof -
  define D :: int where "D = 10 * Second"
  define q where "q = (T + 30 * Second - start) div D"
  have D: "0 < D" by (simp add: D_def Second_def)
  have q0: "0 \<le> q" using assms D by (simp add: q_def D_def Second_def pos_imp_zdiv_nonneg_iff)
  define x where "x = T + 30 * Second - start"
  have e: "x = D * q + x mod D" unfolding q_def x_def by simp
  have m: "0 \<le> x mod D" "x mod D < D" using D by simp_all
  have lo: "q * D \<le> T + 30 * Second - start"
    using e m unfolding x_def by (simp add: mult.commute)
  have hi: "T + 30 * Second - start < (q + 1) * D"
    using e m unfolding x_def by (simp add: algebra_simps)
  let ?k = "Suc (nat q)"
  have w: "wake start ?k = start + (q + 1) * D"
    using q0 by (simp add: wake_def D_def algebra_simps)
  have 1: "T + 30 * Second < wake start ?k" using hi w by simp
  have 2: "wake start ?k \<le> T + 40 * Second"
    using lo w by (simp add: D_def algebra_simps)
  have 3: "\<forall>j\<le>?k - 1. wake start j \<le> T + 30 * Second"
  proof (intro allI impI)
    fix j assume "j \<le> ?k - 1"
    then have "int j \<le> q" using q0 by simp
    then have "int j * D \<le> q * D" using D by (simp add: mult_right_mono)
    with lo show "wake start j \<le> T + 30 * Second" by (simp add: wake_def D_def)
  qed
  from 1 2 3 show ?thesis by blast
qed


text \<open>
  C7. After each sleep the janitor returns if the connection is closed; otherwise it
  removes exactly the entries whose timestamp lies more than 30 s before the clock reading
  taken at the entry, and keeps the rest. An entry stamped \<open>T\<close> therefore survives every
  pass whose reading is at most \<open>T + 30 s\<close> (one at \<open>T + 29 s\<close> included) and is gone after a
  pass whose reading is later. With sleeps of exactly 10 s and a janitor started no later
  than \<open>T\<close>, the first such pass comes after \<open>T + 30 s\<close> and no later than \<open>T + 40 s\<close>, and
  the entry is present after every earlier pass.
\<close>

theorem janitor_evicts_after_30s:
  assumes "receivedBranches c b = Some T"
  shows "(closed c \<longrightarrow> branchJanitor_tick now c = None) \<and>
         (\<not> closed c \<longrightarrow>
            (\<exists>c'. branchJanitor_tick now c = Some c' \<and> \<not> closed c' \<and>
               (\<forall>k. receivedBranches c' k =
                  (case receivedBranches c k of
                     None \<Rightarrow> None
                   | Some t \<Rightarrow> if now k - t > 30 * Second then None else Some t)) \<and>
               (now b \<le> T + 30 * Second \<longrightarrow> receivedBranches c' b = Some T) \<and>
               (T + 30 * Second < now b \<longrightarrow> receivedBranches c' b = None))) \<and>
         (\<not> closed c \<and> start \<le> T \<longrightarrow>
            (\<exists>k>0. T + 30 * Second < wake start k \<and> wake start k \<le> T + 40 * Second \<and>
               receivedBranches (branchJanitor (wakeups start k) c) b = None \<and>
               (\<forall>j<k. receivedBranches (branchJanitor (wakeups start j) c) b = Some T)))"
proof (intro conjI impI)
  assume "closed c"
  then show "branchJanitor_tick now c = None" by (simp add: branchJanitor_tick_def)
next
  assume o: "\<not> closed c"
  let ?c' = "c\<lparr>receivedBranches := sweep now (receivedBranches c)\<rparr>"
  have 1: "branchJanitor_tick now c = Some ?c'" using o by (simp add: branchJanitor_tick_def)
  have 2: "\<forall>k. receivedBranches ?c' k =
                  (case receivedBranches c k of
                     None \<Rightarrow> None
                   | Some t \<Rightarrow> if now k - t > 30 * Second then None else Some t)"
    by (simp add: sweep_apply)
  have 3: "now b \<le> T + 30 * Second \<longrightarrow> receivedBranches ?c' b = Some T"
    using assms by (simp add: sweep_apply)
  have 4: "T + 30 * Second < now b \<longrightarrow> receivedBranches ?c' b = None"
    using assms by (simp add: sweep_apply)
  have 5: "\<not> closed ?c'" using o by simp
  from 1 2 3 4 5
  show "\<exists>c'. branchJanitor_tick now c = Some c' \<and> \<not> closed c' \<and>
               (\<forall>k. receivedBranches c' k =
                  (case receivedBranches c k of
                     None \<Rightarrow> None
                   | Some t \<Rightarrow> if now k - t > 30 * Second then None else Some t)) \<and>
               (now b \<le> T + 30 * Second \<longrightarrow> receivedBranches c' b = Some T) \<and>
               (T + 30 * Second < now b \<longrightarrow> receivedBranches c' b = None)"
    by blast
next
  assume "\<not> closed c \<and> start \<le> T"
  then have o: "\<not> closed c" and s: "start \<le> T" by simp_all
  from first_wake_after [OF s] obtain k
    where k: "0 < k" "T + 30 * Second < wake start k" "wake start k \<le> T + 40 * Second"
      and early: "\<forall>j\<le>k - 1. wake start j \<le> T + 30 * Second"
    by blast
  have keep: "fold sweep (wakeups start j) (receivedBranches c) b = Some T" if "j < k" for j
  proof (rule fold_sweep_keep [where m = "receivedBranches c" and b = b and T = T, OF assms])
    fix now assume "now \<in> set (wakeups start j)"
    from wakeups_set [OF this, of b] obtain i where "i \<le> j" and "now b = wake start i" by blast
    with that early show "now b \<le> T + 30 * Second" by simp
  qed
  from k(1) obtain k' where k': "k = Suc k'" by (cases k) simp_all
  have "fold sweep (wakeups start k') (receivedBranches c) b = Some T"
    using keep [of k'] k' by simp
  then have gone: "fold sweep (wakeups start k) (receivedBranches c) b = None"
    using k(2) unfolding k' by (simp add: wakeups_Suc sweep_apply)
  have a: "receivedBranches (branchJanitor (wakeups start k) c) b = None"
    using gone o by (simp add: branchJanitor_open)
  have b: "\<forall>j<k. receivedBranches (branchJanitor (wakeups start j) c) b = Some T"
    using keep o by (simp add: branchJanitor_open)
  from k a b
  show "\<exists>k>0. T + 30 * Second < wake start k \<and> wake start k \<le> T + 40 * Second \<and>
          receivedBranches (branchJanitor (wakeups start k) c) b = None \<and>
          (\<forall>j<k. receivedBranches (branchJanitor (wakeups start j) c) b = Some T)"
    by blast
qed


theorem janitor_evicts_after_30s_witness:
  "receivedBranches branch_seen ''z9hG4bK123'' = Some (100 * Second) \<and> \<not> closed branch_seen \<and>
   (\<exists>c'. branchJanitor_tick (\<lambda>_. 129 * Second) branch_seen = Some c' \<and>
         receivedBranches c' ''z9hG4bK123'' = Some (100 * Second)) \<and>
   (\<exists>c'. branchJanitor_tick (\<lambda>_. 141 * Second) branch_seen = Some c' \<and>
         receivedBranches c' ''z9hG4bK123'' = None) \<and>
   (\<exists>k>0. 100 * Second + 30 * Second < wake (95 * Second) k \<and>
         wake (95 * Second) k \<le> 100 * Second + 40 * Second \<and>
         receivedBranches (branchJanitor (wakeups (95 * Second) k) branch_seen) ''z9hG4bK123'' =
           None)"
proof -
  have a: "receivedBranches branch_seen ''z9hG4bK123'' = Some (100 * Second)"
    by (simp add: branch_seen_def)
  have o: "\<not> closed branch_seen" by (simp add: branch_seen_def udp0_def)
  have e: "129 * Second \<le> 100 * Second + 30 * Second"
    and l: "100 * Second + 30 * Second < 141 * Second"
    and s: "95 * Second \<le> 100 * Second"
    by (simp_all add: Second_def)
  note t1 = janitor_evicts_after_30s [OF a, of "\<lambda>_. 129 * Second" "95 * Second"]
  note t2 = janitor_evicts_after_30s [OF a, of "\<lambda>_. 141 * Second" "95 * Second"]
  from t1 o e have 1: "\<exists>c'. branchJanitor_tick (\<lambda>_. 129 * Second) branch_seen = Some c' \<and>
         receivedBranches c' ''z9hG4bK123'' = Some (100 * Second)"
    by blast
  from t2 o l have 2: "\<exists>c'. branchJanitor_tick (\<lambda>_. 141 * Second) branch_seen = Some c' \<and>
         receivedBranches c' ''z9hG4bK123'' = None"
    by blast
  from t1 o s have 3: "\<exists>k>0. 100 * Second + 30 * Second < wake (95 * Second) k \<and>
         wake (95 * Second) k \<le> 100 * Second + 40 * Second \<and>
         receivedBranches (branchJanitor (wakeups (95 * Second) k) branch_seen) ''z9hG4bK123'' =
           None"
    by blast
  from a o 1 2 3 show ?thesis by blast
qed

end
